theory Spec2Isabelle
  imports Main "HOL-Library.Word"
begin

unbundle bit_operations_syntax

section \<open>Data model of drivers/devfreq/devfreq.c\<close>

text \<open>
  \<open>unsigned long\<close> is 64 bits wide on the arm64 target of this kernel tree, \<open>unsigned int\<close>
  and \<open>u32\<close> are 32 bits wide. Frequencies, jiffies and \<open>time_in_state\<close> are
  \<open>unsigned long\<close>; \<open>trans_table\<close> and \<open>total_trans\<close> are \<open>unsigned int\<close>
  (they are allocated with \<open>sizeof(unsigned int)\<close> and printed with \<open>%u\<close>).
\<close>

type_synonym ulong = "64 word"
type_synonym u32 = "32 word"

text \<open>
  Constants that come from headers outside \<open>drivers/devfreq/devfreq.c\<close>
  (\<open>errno-base.h\<close>, \<open>linux/devfreq.h\<close>). They are parameters of every function that
  uses them; \<open>linux_hdr\<close> below holds the values of the Linux headers and is used for
  concrete evaluations only.
\<close>

record hdr =
  EINVAL :: int
  ENODEV :: int
  DEVFREQ_NAME_LEN :: nat
  DEVFREQ_FLAG_LEAST_UPPER_BOUND :: u32

definition linux_hdr :: hdr where
  "linux_hdr = \<lparr>EINVAL = 22, ENODEV = 19, DEVFREQ_NAME_LEN = 16,
                 DEVFREQ_FLAG_LEAST_UPPER_BOUND = 1\<rparr>"

text \<open>
  \<open>struct devfreq_dev_profile\<close>. \<open>freq_table\<close> is a pointer: \<open>None\<close> is \<open>NULL\<close>,
  \<open>Some t\<close> an array with contents \<open>t\<close>; \<open>max_state\<close> is the number of entries the code
  reads. The callbacks take the parent device only, so they are modelled by what they
  return: \<open>get_cur_freq\<close> is \<open>None\<close> when the pointer is \<open>NULL\<close> and otherwise the
  return code together with the value left in \<open>*freq\<close>; \<open>target\<close> maps the requested
  frequency and the flags to the return code and the frequency left in \<open>*freq\<close>.
\<close>

record devfreq_dev_profile =
  initial_freq :: ulong
  polling_ms :: u32
  freq_table :: "ulong list option"
  max_state :: nat
  get_cur_freq :: "(int \<times> ulong) option"
  target :: "ulong \<Rightarrow> u32 \<Rightarrow> int \<times> ulong"

text \<open>
  \<open>struct devfreq\<close>, the fields the modelled functions touch. \<open>governor\<close> is a pointer
  to a registered governor (\<open>None\<close> is \<open>NULL\<close>); \<open>lock\<close> tells whether
  \<open>devfreq->lock\<close> is held.
\<close>

type_synonym gov_ptr = nat

record devfreq =
  profile :: devfreq_dev_profile
  governor :: "gov_ptr option"
  governor_name :: string
  previous_freq :: ulong
  min_freq :: ulong
  max_freq :: ulong
  max_boost :: bool
  is_boost_device :: bool
  total_trans :: u32
  trans_table :: "u32 list"
  time_in_state :: "ulong list"
  last_stat_updated :: ulong
  lock :: bool

text \<open>
  What \<open>devfreq_add_device\<close> establishes (lines 608-614) and every array access of the
  statistics code relies on: the frequency table has \<open>max_state\<close> entries,
  \<open>time_in_state\<close> has \<open>max_state\<close> entries and \<open>trans_table\<close> has
  \<open>max_state * max_state\<close>.
\<close>

definition stats_ok :: "devfreq \<Rightarrow> bool" where
  "stats_ok df \<longleftrightarrow>
     (case freq_table (profile df) of
        None \<Rightarrow> max_state (profile df) = 0
      | Some t \<Rightarrow> length t = max_state (profile df)) \<and>
     length (time_in_state df) = max_state (profile df) \<and>
     length (trans_table df) = max_state (profile df) * max_state (profile df)"

section \<open>Frequency levels and transition statistics\<close>

text \<open>The array \<open>devfreq->profile->freq_table\<close> as the loops index it.\<close>

definition table_entries :: "devfreq \<Rightarrow> ulong list" where
  "table_entries df = (case freq_table (profile df) of None \<Rightarrow> [] | Some t \<Rightarrow> t)"

text \<open>
  \<open>devfreq_get_freq_level\<close> (lines 100-109): the first \<open>lev < max_state\<close> with
  \<open>freq == freq_table[lev]\<close>, or \<open>-EINVAL\<close>.
\<close>

definition devfreq_get_freq_level :: "hdr \<Rightarrow> devfreq \<Rightarrow> ulong \<Rightarrow> int" where
  "devfreq_get_freq_level h df freq =
     (case find (\<lambda>lev. freq = table_entries df ! lev) [0..<max_state (profile df)] of
        Some lev \<Rightarrow> int lev
      | None \<Rightarrow> - EINVAL h)"

text \<open>
  \<open>devfreq_update_status\<close> (lines 156-192). \<open>jiffies\<close> is the value of the global
  tick counter read at entry; the result is the return code and the updated device.
\<close>

definition devfreq_update_status :: "hdr \<Rightarrow> ulong \<Rightarrow> devfreq \<Rightarrow> ulong \<Rightarrow> int \<times> devfreq" where
  "devfreq_update_status h jiffies df freq =
     (let cur_time = jiffies in
      if previous_freq df = 0 then (0, df\<lparr>last_stat_updated := cur_time\<rparr>)
      else
        let prev_lev = devfreq_get_freq_level h df (previous_freq df) in
        if prev_lev < 0 then (prev_lev, df\<lparr>last_stat_updated := cur_time\<rparr>)
        else
          let df1 = df\<lparr>time_in_state := (time_in_state df)
                         [nat prev_lev := time_in_state df ! nat prev_lev +
                                          (cur_time - last_stat_updated df)]\<rparr>;
              lev = devfreq_get_freq_level h df1 freq
          in
          if lev < 0 then (lev, df1\<lparr>last_stat_updated := cur_time\<rparr>)
          else
            let df2 =
                  (if lev \<noteq> prev_lev then
                     df1\<lparr>trans_table := (trans_table df1)
                           [nat prev_lev * max_state (profile df1) + nat lev :=
                              trans_table df1 ! (nat prev_lev * max_state (profile df1) + nat lev) + 1],
                         total_trans := total_trans df1 + 1\<rparr>
                   else df1)
            in (0, df2\<lparr>last_stat_updated := cur_time\<rparr>))"

text \<open>
  The path condition of lines 165-183 under which a call of \<open>devfreq_update_status\<close>
  reaches the two increments: \<open>previous_freq\<close> is set, both levels were found, and they
  differ.
\<close>

definition transition_counted :: "hdr \<Rightarrow> devfreq \<Rightarrow> ulong \<Rightarrow> bool" where
  "transition_counted h df freq \<longleftrightarrow>
     previous_freq df \<noteq> 0 \<and>
     0 \<le> devfreq_get_freq_level h df (previous_freq df) \<and>
     0 \<le> devfreq_get_freq_level h df freq \<and>
     devfreq_get_freq_level h df freq \<noteq> devfreq_get_freq_level h df (previous_freq df)"

text \<open>
  The spec's \<open>recordTransition(prevFreq, newFreq, now)\<close>: one call of
  \<open>devfreq_update_status\<close> with \<open>previous_freq\<close> as its caller left it and the tick
  counter at \<open>now\<close>. (\<open>update_devfreq\<close> stores the applied frequency in
  \<open>previous_freq\<close> after each call, line 319; \<open>devfreq_monitor_resume\<close> may store the
  driver's current frequency, line 430.) \<open>record_transitions\<close> runs a sequence of
  such calls.
\<close>

definition record_transition :: "hdr \<Rightarrow> ulong \<times> ulong \<times> ulong \<Rightarrow> devfreq \<Rightarrow> devfreq" where
  "record_transition h c df =
     (case c of (prev, freq, now) \<Rightarrow>
        snd (devfreq_update_status h now (df\<lparr>previous_freq := prev\<rparr>) freq))"

definition record_transitions :: "hdr \<Rightarrow> (ulong \<times> ulong \<times> ulong) list \<Rightarrow> devfreq \<Rightarrow> devfreq" where
  "record_transitions h cs df = fold (record_transition h) cs df"

section \<open>Frequency table and bounds derivation\<close>

text \<open>
  The loop of \<open>devfreq_set_freq_limits\<close> (lines 84-89) over the indices it visits,
  carrying \<open>(min, max)\<close>.
\<close>

fun freq_limits_loop :: "ulong list \<Rightarrow> nat list \<Rightarrow> ulong \<times> ulong \<Rightarrow> ulong \<times> ulong" where
  "freq_limits_loop t [] (mn, mx) = (mn, mx)"
| "freq_limits_loop t (idx # idxs) (mn, mx) =
     freq_limits_loop t idxs
       (if mn > t ! idx then t ! idx else mn, if mx < t ! idx then t ! idx else mx)"

text \<open>
  \<open>devfreq_set_freq_limits\<close> (lines 76-93): nothing happens when \<open>freq_table\<close> is
  \<open>NULL\<close>; otherwise \<open>min\<close> starts at \<open>~0\<close>, \<open>max\<close> at 0, and both are stored after
  the loop over \<open>idx < max_state\<close>.
\<close>

definition devfreq_set_freq_limits :: "devfreq \<Rightarrow> devfreq" where
  "devfreq_set_freq_limits df =
     (case freq_table (profile df) of
        None \<Rightarrow> df
      | Some t \<Rightarrow>
          (case freq_limits_loop t [0..<max_state (profile df)] (NOT 0, 0) of
             (mn, mx) \<Rightarrow> df\<lparr>min_freq := mn, max_freq := mx\<rparr>))"

text \<open>
  The operating-point library that \<open>devfreq_set_freq_table\<close> queries, as parameters:
  the count returned by \<open>dev_pm_opp_get_opp_count\<close>, whether \<open>devm_kcalloc\<close> succeeds,
  and \<open>dev_pm_opp_find_freq_ceil\<close>, which returns the lowest operating point at or
  above the frequency, or fails (\<open>None\<close>).
\<close>

record opp_source =
  dev_pm_opp_get_opp_count :: int
  devm_kcalloc_ok :: bool
  dev_pm_opp_find_freq_ceil :: "ulong \<Rightarrow> ulong option"

text \<open>
  The loop of \<open>devfreq_set_freq_table\<close> (lines 138-147) with \<open>n\<close> iterations left:
  \<open>(True, table)\<close> when every lookup succeeded, \<open>(False, table)\<close> with the array as it
  was when a lookup failed.
\<close>

fun freq_table_loop ::
  "(ulong \<Rightarrow> ulong option) \<Rightarrow> nat \<Rightarrow> nat \<Rightarrow> ulong \<Rightarrow> ulong list \<Rightarrow> bool \<times> ulong list" where
  "freq_table_loop ceil 0 i freq t = (True, t)"
| "freq_table_loop ceil (Suc n) i freq t =
     (case ceil freq of
        None \<Rightarrow> (False, t)
      | Some f \<Rightarrow> freq_table_loop ceil n (Suc i) (f + 1) (t[i := f]))"

text \<open>
  \<open>devfreq_set_freq_table\<close> (lines 115-149). When a lookup fails the array is freed with
  \<open>devm_kfree\<close> and \<open>max_state\<close> is reset to 0, but \<open>profile->freq_table\<close> is not
  assigned: the pointer stays non-\<open>NULL\<close>, which the model keeps as \<open>Some\<close> of the
  freed array's last contents (no loop reads it, since \<open>max_state\<close> is 0).
\<close>

definition devfreq_set_freq_table :: "opp_source \<Rightarrow> devfreq \<Rightarrow> devfreq" where
  "devfreq_set_freq_table opp df =
     (let count = dev_pm_opp_get_opp_count opp in
      if count \<le> 0 then df
      else if \<not> devm_kcalloc_ok opp then
        df\<lparr>profile := (profile df)\<lparr>freq_table := None, max_state := 0\<rparr>\<rparr>
      else
        (case freq_table_loop (dev_pm_opp_find_freq_ceil opp) (nat count) 0 0
                (replicate (nat count) 0) of
           (True, t) \<Rightarrow>
             df\<lparr>profile := (profile df)\<lparr>freq_table := Some t, max_state := nat count\<rparr>\<rparr>
         | (False, t) \<Rightarrow>
             df\<lparr>profile := (profile df)\<lparr>freq_table := Some t, max_state := 0\<rparr>\<rparr>))"

text \<open>
  Lines 594-599 of \<open>devfreq_add_device\<close>: the table is derived from the operating points
  when the driver gave neither a table nor a \<open>max_state\<close>, then the bounds are derived.
\<close>

definition devfreq_add_device_limits :: "opp_source \<Rightarrow> devfreq \<Rightarrow> devfreq" where
  "devfreq_add_device_limits opp df =
     devfreq_set_freq_limits
       (if max_state (profile df) = 0 \<and> freq_table (profile df) = None
        then devfreq_set_freq_table opp df else df)"

section \<open>Governors, callbacks and the frequency update\<close>

text \<open>
  \<open>struct devfreq_governor\<close>. \<open>get_target_freq\<close> returns the return code and the value
  left in \<open>*freq\<close>; \<open>event_handler\<close> returns the return code and the device as the
  handler left it.
\<close>

datatype gov_event = DEVFREQ_GOV_START | DEVFREQ_GOV_STOP

record devfreq_governor =
  name :: string
  immutable :: bool
  get_target_freq :: "devfreq \<Rightarrow> int \<times> ulong"
  event_handler :: "devfreq \<Rightarrow> gov_event \<Rightarrow> int \<times> devfreq"

text \<open>
  What a call does besides changing the device: the callbacks it invokes, the transition
  notifications it sends and the kernel-log lines it prints, in order.
\<close>

datatype notify_state = DEVFREQ_PRECHANGE | DEVFREQ_POSTCHANGE

datatype event =
    GetTargetFreq gov_ptr
  | GetCurFreq
  | Notify notify_state ulong ulong
  | Target ulong u32
  | GovEvent gov_ptr gov_event
  | DevWarn
  | DevErr

text \<open>
  \<open>devfreq_notify_transition\<close> (lines 221-242) with \<open>freqs = {old, new}\<close>: the notifier
  chain is called with the state and the pair.
\<close>

definition devfreq_notify_transition :: "ulong \<times> ulong \<Rightarrow> notify_state \<Rightarrow> event list" where
  "devfreq_notify_transition freqs state =
     (case state of
        DEVFREQ_PRECHANGE \<Rightarrow> [Notify DEVFREQ_PRECHANGE (fst freqs) (snd freqs)]
      | DEVFREQ_POSTCHANGE \<Rightarrow> [Notify DEVFREQ_POSTCHANGE (fst freqs) (snd freqs)])"

text \<open>
  Lines 268-276 of \<open>update_devfreq\<close>: the frequency asked for. With \<open>max_boost\<close> it
  is \<open>ULONG_MAX\<close>; otherwise governor \<open>g\<close> is asked, and its return code comes along.
\<close>

definition requested_freq ::
  "(gov_ptr \<Rightarrow> devfreq_governor) \<Rightarrow> gov_ptr \<Rightarrow> devfreq \<Rightarrow> int \<times> ulong \<times> event list" where
  "requested_freq gov g df =
     (if max_boost df then (0, NOT 0, [])
      else (case get_target_freq (gov g) df of (e, f) \<Rightarrow> (e, f, [GetTargetFreq g])))"

text \<open>
  Lines 286-293 of \<open>update_devfreq\<close>: the two clamps in the order of the source, with
  \<open>flags\<close> starting at 0.
\<close>

definition adjust_freq :: "hdr \<Rightarrow> devfreq \<Rightarrow> ulong \<Rightarrow> ulong \<times> u32" where
  "adjust_freq h df freq0 =
     (let flags0 = (0 :: u32);
          (freq1, flags1) =
             (if min_freq df \<noteq> 0 \<and> freq0 < min_freq df
              then (min_freq df, flags0 AND NOT (DEVFREQ_FLAG_LEAST_UPPER_BOUND h))
              else (freq0, flags0))
      in if max_freq df \<noteq> 0 \<and> freq1 > max_freq df
         then (max_freq df, flags1 OR DEVFREQ_FLAG_LEAST_UPPER_BOUND h)
         else (freq1, flags1))"

text \<open>
  Lines 295-298 of \<open>update_devfreq\<close>: the current frequency, from the driver when it has
  a \<open>get_cur_freq\<close> callback (whose return code is not looked at), else
  \<open>previous_freq\<close>.
\<close>

definition current_freq :: "devfreq \<Rightarrow> ulong \<times> event list" where
  "current_freq df =
     (case get_cur_freq (profile df) of
        Some (r, c) \<Rightarrow> (c, [GetCurFreq])
      | None \<Rightarrow> (previous_freq df, []))"

text \<open>
  Lines 314-317 of \<open>update_devfreq\<close>: the statistics are updated when the profile has a
  frequency table; a failure is logged and otherwise ignored.
\<close>

definition update_status_logged :: "hdr \<Rightarrow> ulong \<Rightarrow> devfreq \<Rightarrow> ulong \<Rightarrow> devfreq \<times> event list" where
  "update_status_logged h jiffies df freq =
     (if freq_table (profile df) \<noteq> None then
        (case devfreq_update_status h jiffies df freq of
           (r, d) \<Rightarrow> (d, if r \<noteq> 0 then [DevErr] else []))
      else (df, []))"

text \<open>
  \<open>update_devfreq\<close> (lines 253-321). \<open>gov\<close> dereferences a governor pointer. The result
  is the return code, the device and the events of the call.
\<close>

definition update_devfreq ::
  "hdr \<Rightarrow> (gov_ptr \<Rightarrow> devfreq_governor) \<Rightarrow> ulong \<Rightarrow> devfreq \<Rightarrow> int \<times> devfreq \<times> event list" where
  "update_devfreq h gov jiffies df =
     (if \<not> lock df then (- EINVAL h, df, [DevWarn])
      else
        (case governor df of
           None \<Rightarrow> (- EINVAL h, df, [])
         | Some g \<Rightarrow>
            (case requested_freq gov g df of
               (err0, freq0, ev0) \<Rightarrow>
                 if err0 \<noteq> 0 then (err0, df, ev0)
                 else
                   (case adjust_freq h df freq0 of
                      (freq, flags) \<Rightarrow>
                   (case current_freq df of
                      (cur_freq, ev1) \<Rightarrow>
                   (case target (profile df) freq flags of
                      (err, freq') \<Rightarrow>
                        let ev2 = ev0 @ ev1 @
                                  devfreq_notify_transition (cur_freq, freq) DEVFREQ_PRECHANGE @
                                  [Target freq flags]
                        in
                        if err \<noteq> 0 then
                          (err, df,
                           ev2 @ devfreq_notify_transition (cur_freq, cur_freq) DEVFREQ_POSTCHANGE)
                        else
                          (case update_status_logged h jiffies df freq' of
                             (df1, ev3) \<Rightarrow>
                               (err, df1\<lparr>previous_freq := freq'\<rparr>,
                                ev2 @
                                devfreq_notify_transition (cur_freq, freq') DEVFREQ_POSTCHANGE @
                                ev3))))))))"

text \<open>The frequencies and flags the driver's \<open>target\<close> callback was called with.\<close>

fun target_calls :: "event list \<Rightarrow> (ulong \<times> u32) list" where
  "target_calls [] = []"
| "target_calls (Target f fl # es) = (f, fl) # target_calls es"
| "target_calls (e # es) = target_calls es"

text \<open>The governor events a call delivered, with the governor that received each.\<close>

fun gov_events :: "event list \<Rightarrow> (gov_ptr \<times> gov_event) list" where
  "gov_events [] = []"
| "gov_events (GovEvent g e # es) = (g, e) # gov_events es"
| "gov_events (e # es) = gov_events es"

section \<open>Administrative writes\<close>

text \<open>
  \<open>strncmp(s1, s2, n) == 0\<close> on strings without an embedded NUL: the first \<open>n\<close>
  characters agree.
\<close>

definition strncmp_eq :: "string \<Rightarrow> string \<Rightarrow> nat \<Rightarrow> bool" where
  "strncmp_eq s1 s2 n \<longleftrightarrow> take n s1 = take n s2"

text \<open>
  \<open>find_devfreq_governor\<close> (lines 202-219) over \<open>devfreq_governor_list\<close>: the first
  registered governor whose name matches, or \<open>ERR_PTR(-ENODEV)\<close>. (The name is never
  \<open>NULL\<close> here.)
\<close>

definition find_devfreq_governor ::
  "hdr \<Rightarrow> (gov_ptr \<Rightarrow> devfreq_governor) \<Rightarrow> gov_ptr list \<Rightarrow> string \<Rightarrow> int + gov_ptr" where
  "find_devfreq_governor h gov devfreq_governor_list nm =
     (case find (\<lambda>p. strncmp_eq (name (gov p)) nm (DEVFREQ_NAME_LEN h))
             devfreq_governor_list of
        Some p \<Rightarrow> Inr p
      | None \<Rightarrow> Inl (- ENODEV h))"

text \<open>The governor white list of \<open>governor_store\<close> (lines 975-980).\<close>

definition governor_white_list :: "hdr \<Rightarrow> string \<Rightarrow> bool" where
  "governor_white_list h str_governor \<longleftrightarrow>
     strncmp_eq str_governor ''simple_ondemand'' (DEVFREQ_NAME_LEN h) \<or>
     strncmp_eq str_governor ''cpufreq'' (DEVFREQ_NAME_LEN h) \<or>
     strncmp_eq str_governor ''performance'' (DEVFREQ_NAME_LEN h) \<or>
     strncmp_eq str_governor ''powersave'' (DEVFREQ_NAME_LEN h) \<or>
     strncmp_eq str_governor ''msm-adreno-tz'' (DEVFREQ_NAME_LEN h)"

text \<open>The tail of \<open>governor_store\<close> after label \<open>out\<close>: a zero \<open>ret\<close> becomes \<open>count\<close>.\<close>

definition ret_or_count :: "int \<Rightarrow> nat \<Rightarrow> int" where
  "ret_or_count ret count = (if ret = 0 then int count else ret)"

text \<open>
  \<open>governor_store\<close> (lines 962-1030). \<open>sscanf_s n buf\<close> stands for
  \<open>sscanf(buf, "%<n>s", str_governor)\<close>: \<open>None\<close> when no string was converted, else
  the string read. \<open>strncpy\<close> keeps at most \<open>DEVFREQ_NAME_LEN\<close> characters of the name,
  \<open>strlcpy\<close> one fewer.
\<close>

definition governor_store ::
  "hdr \<Rightarrow> (nat \<Rightarrow> string \<Rightarrow> string option) \<Rightarrow> (gov_ptr \<Rightarrow> devfreq_governor) \<Rightarrow> gov_ptr list \<Rightarrow>
   devfreq \<Rightarrow> string \<Rightarrow> nat \<Rightarrow> int \<times> devfreq \<times> event list" where
  "governor_store h sscanf_s gov devfreq_governor_list df buf count =
     (case sscanf_s (DEVFREQ_NAME_LEN h) buf of
        None \<Rightarrow> (- EINVAL h, df, [])
      | Some str_governor \<Rightarrow>
          if \<not> governor_white_list h str_governor then (- EINVAL h, df, [])
          else
            (case find_devfreq_governor h gov devfreq_governor_list str_governor of
               Inl e \<Rightarrow> (ret_or_count e count, df, [])
             | Inr governor' \<Rightarrow>
                 if governor df = Some governor' then (ret_or_count 0 count, df, [])
                 else if (case governor df of Some g \<Rightarrow> immutable (gov g) | None \<Rightarrow> False)
                         \<or> immutable (gov governor')
                 then (ret_or_count (- EINVAL h) count, df, [])
                 else
                   (case (case governor df of
                            Some g \<Rightarrow>
                              (case event_handler (gov g) df DEVFREQ_GOV_STOP of
                                 (r, d) \<Rightarrow> (r, d, [GovEvent g DEVFREQ_GOV_STOP]))
                          | None \<Rightarrow> (0, df, [])) of
                      (ret, df1, ev1) \<Rightarrow>
                        if ret \<noteq> 0 then (ret_or_count ret count, df1, ev1 @ [DevWarn])
                        else
                          let prev_gov = governor df1;
                              df2 = df1\<lparr>governor := Some governor',
                                       governor_name :=
                                         take (DEVFREQ_NAME_LEN h) (name (gov governor'))\<rparr>;
                              (ret2, df3) = event_handler (gov governor') df2 DEVFREQ_GOV_START;
                              ev2 = ev1 @ [GovEvent governor' DEVFREQ_GOV_START]
                          in
                          if ret2 \<noteq> 0 then
                            (case prev_gov of
                               Some pg \<Rightarrow>
                                 let df4 = df3\<lparr>governor := Some pg,
                                              governor_name :=
                                                take (DEVFREQ_NAME_LEN h - 1) (name (gov pg))\<rparr>;
                                     (r5, df5) = event_handler (gov pg) df4 DEVFREQ_GOV_START
                                 in (ret_or_count ret2 count, df5,
                                     ev2 @ [DevWarn, GovEvent pg DEVFREQ_GOV_START])
                             | None \<Rightarrow> (ret_or_count ret2 count, df3, ev2 @ [DevWarn]))
                          else (ret_or_count ret2 count, df3, ev2))))"

text \<open>
  \<open>min_freq_store\<close> (lines 1127-1158). \<open>sscanf_lu buf\<close> stands for
  \<open>sscanf(buf, "%lu", &value)\<close>: \<open>None\<close> when nothing was converted. The device lock is
  taken before the bound is checked and released at label \<open>unlock\<close>.
\<close>

definition min_freq_store ::
  "hdr \<Rightarrow> (string \<Rightarrow> ulong option) \<Rightarrow> (gov_ptr \<Rightarrow> devfreq_governor) \<Rightarrow> ulong \<Rightarrow>
   devfreq \<Rightarrow> string \<Rightarrow> nat \<Rightarrow> int \<times> devfreq \<times> event list" where
  "min_freq_store h sscanf_lu gov jiffies df buf count =
     (if is_boost_device df then (int count, df, [])
      else
        (case sscanf_lu buf of
           None \<Rightarrow> (- EINVAL h, df, [])
         | Some v \<Rightarrow>
             let df1 = df\<lparr>lock := True\<rparr>;
                 mx = max_freq df1
             in
             if v \<noteq> 0 \<and> mx \<noteq> 0 \<and> v > mx then (- EINVAL h, df1\<lparr>lock := False\<rparr>, [])
             else
               (case update_devfreq h gov jiffies (df1\<lparr>min_freq := v\<rparr>) of
                  (r, df2, ev) \<Rightarrow> (int count, df2\<lparr>lock := False\<rparr>, ev))))"

section \<open>Concrete devices and governors\<close>

text \<open>
  A driver profile with the frequency table \<open>[100, 200, 300]\<close>, no \<open>get_cur_freq\<close>
  callback and a \<open>target\<close> callback that accepts every frequency as it is.
\<close>

definition ex_profile :: devfreq_dev_profile where
  "ex_profile = \<lparr>initial_freq = 100, polling_ms = 50,
                  freq_table = Some [100, 200, 300], max_state = 3,
                  get_cur_freq = None, target = (\<lambda>f fl. (0, f))\<rparr>"

text \<open>A freshly registered device on that profile, running governor 1, unlocked.\<close>

definition ex_dev :: devfreq where
  "ex_dev = \<lparr>profile = ex_profile, governor = Some 1, governor_name = ''performance'',
              previous_freq = 100, min_freq = 100, max_freq = 300,
              max_boost = False, is_boost_device = False,
              total_trans = 0, trans_table = replicate 9 0,
              time_in_state = [0, 0, 0], last_stat_updated = 0, lock = False\<rparr>"

text \<open>A device whose table lists frequency 0 and whose \<open>previous_freq\<close> is 0.\<close>

definition ex_zero_dev :: devfreq where
  "ex_zero_dev = ex_dev\<lparr>profile := ex_profile\<lparr>freq_table := Some [0, 100], max_state := 2\<rparr>,
                        previous_freq := 0, trans_table := replicate 4 0,
                        time_in_state := [0, 0]\<rparr>"

text \<open>
  Governors for the concrete evaluations: \<open>fixed_gov nm r\<close> is mutable, always asks for
  frequency \<open>r\<close> and handles every event successfully without touching the device.
  \<open>ex_gov\<close> is the memory holding the registered governors, \<open>ex_governor_list\<close> the
  list \<open>devfreq_governor_list\<close>. Governor 4 fails its \<open>STOP\<close> event with \<open>-5\<close>.
\<close>

definition fixed_gov :: "string \<Rightarrow> ulong \<Rightarrow> devfreq_governor" where
  "fixed_gov nm r = \<lparr>name = nm, immutable = False,
                     get_target_freq = (\<lambda>df. (0, r)),
                     event_handler = (\<lambda>df e. (0, df))\<rparr>"

definition ex_gov :: "gov_ptr \<Rightarrow> devfreq_governor" where
  "ex_gov p =
     (if p = 1 then fixed_gov ''performance'' (NOT 0)
      else if p = 2 then fixed_gov ''powersave'' 0
      else if p = 3 then fixed_gov ''userspace'' 250
      else if p = 4 then
        (fixed_gov ''simple_ondemand'' 100)
          \<lparr>event_handler :=
             (\<lambda>df e. case e of DEVFREQ_GOV_STOP \<Rightarrow> (- 5, df) | DEVFREQ_GOV_START \<Rightarrow> (0, df))\<rparr>
      else fixed_gov ''cpufreq'' 100)"

definition ex_governor_list :: "gov_ptr list" where
  "ex_governor_list = [1, 2, 3, 4, 5]"

text \<open>
  Scanners for the concrete evaluations, after the kernel's \<open>vsscanf\<close>: \<open>%<n>s\<close> fails
  on an empty buffer only, skips leading white space and copies up to \<open>n\<close> characters up
  to the next white space; \<open>%lu\<close> skips white space and converts a non-empty run of
  decimal digits.
\<close>

definition isspace :: "char \<Rightarrow> bool" where
  "isspace c \<longleftrightarrow> c \<in> set [CHR '' '', CHR 0x09, CHR 0x0A, CHR 0x0B, CHR 0x0C, CHR 0x0D, CHR 0xA0]"

definition isdigit :: "char \<Rightarrow> bool" where
  "isdigit c \<longleftrightarrow> c \<in> set ''0123456789''"

definition ex_sscanf_s :: "nat \<Rightarrow> string \<Rightarrow> string option" where
  "ex_sscanf_s n buf =
     (if buf = [] then None
      else Some (take n (takeWhile (\<lambda>c. \<not> isspace c) (dropWhile isspace buf))))"

definition ex_sscanf_lu :: "string \<Rightarrow> ulong option" where
  "ex_sscanf_lu buf =
     (let ds = takeWhile isdigit (dropWhile isspace buf)
      in if ds = [] then None
         else Some (foldl (\<lambda>acc c. acc * 10 + of_nat (of_char c - 48)) 0 ds))"

text \<open>
  The device of \<open>ex_dev\<close> with the lock held, on a driver whose \<open>target\<close> callback
  fails with \<open>-5\<close>; the device with the lock held, floor 150 and governor 5, which asks
  for 100; and the device flagged as a boost device.
\<close>

definition ex_failing_dev :: devfreq where
  "ex_failing_dev = ex_dev\<lparr>profile := ex_profile\<lparr>target := (\<lambda>f fl. (- 5, f))\<rparr>, lock := True\<rparr>"

definition ex_floor_dev :: devfreq where
  "ex_floor_dev = ex_dev\<lparr>governor := Some 5, min_freq := 150, lock := True\<rparr>"

definition ex_boost_dev :: devfreq where
  "ex_boost_dev = ex_dev\<lparr>is_boost_device := True\<rparr>"

text \<open>
  A device registered without a frequency table and with zero bounds; an operating-point
  library that reports three operating points, answers the first lookup with 100 and
  fails the second; and the device with a non-\<open>NULL\<close> table of zero entries.
\<close>

definition ex_notable_dev :: devfreq where
  "ex_notable_dev = ex_dev\<lparr>profile := ex_profile\<lparr>freq_table := None, max_state := 0\<rparr>,
                           min_freq := 0, max_freq := 0,
                           trans_table := [], time_in_state := []\<rparr>"

definition ex_failing_opp :: opp_source where
  "ex_failing_opp = \<lparr>dev_pm_opp_get_opp_count = 3, devm_kcalloc_ok = True,
                      dev_pm_opp_find_freq_ceil = (\<lambda>f. if f \<le> 100 then Some 100 else None)\<rparr>"

definition ex_empty_table_dev :: devfreq where
  "ex_empty_table_dev =
     ex_notable_dev\<lparr>profile := ex_profile\<lparr>freq_table := Some [], max_state := 0\<rparr>\<rparr>"

text \<open>
  The device running governor 3 (\<open>userspace\<close>, a name off the white list), and the
  device running governor 4, whose \<open>STOP\<close> event fails.
\<close>

definition ex_userspace_dev :: devfreq where
  "ex_userspace_dev = ex_dev\<lparr>governor := Some 3, governor_name := ''userspace''\<rparr>"

definition ex_stopfail_dev :: devfreq where
  "ex_stopfail_dev = ex_dev\<lparr>governor := Some 4, governor_name := ''simple_ondemand''\<rparr>"

text \<open>
  \<open>n\<close> round trips between the levels of 100 and 200: a call with previous frequency
  100 and new frequency 200, then one with previous frequency 200 and new frequency 100.
\<close>

definition ex_round_trips :: "nat \<Rightarrow> (ulong \<times> ulong \<times> ulong) list" where
  "ex_round_trips n = concat (replicate n [(100, 200, 1), (200, 100, 2)])"

section \<open>Properties of the statistics update\<close>

text \<open>
  C8: every call of \<open>devfreq_update_status\<close> leaves \<open>last_stat_updated\<close> equal to the
  tick counter read at entry, whatever the return code, so also when the previous or the
  new frequency is not in the frequency table.
\<close>

theorem devfreq_update_status_stamps:
  "last_stat_updated (snd (devfreq_update_status h jiffies df freq)) = jiffies"
  by (simp add: devfreq_update_status_def Let_def)

text \<open>
  C10: a call made while \<open>previous_freq\<close> is 0 returns 0 and changes nothing but
  \<open>last_stat_updated\<close>: no time is accumulated and no transition is counted, whatever
  the frequency table holds.
\<close>

theorem devfreq_update_status_uninitialized:
  "previous_freq df = 0 \<Longrightarrow>
     devfreq_update_status h jiffies df freq = (0, df\<lparr>last_stat_updated := jiffies\<rparr>)"
  by (simp add: devfreq_update_status_def)

theorem devfreq_update_status_uninitialized_witness:
  "previous_freq ex_zero_dev = 0 \<and>
   devfreq_get_freq_level linux_hdr ex_zero_dev 0 = 0 \<and>
   devfreq_update_status linux_hdr 7 ex_zero_dev 100 =
     (0, ex_zero_dev\<lparr>last_stat_updated := 7\<rparr>)"
  using devfreq_update_status_uninitialized [of ex_zero_dev linux_hdr 7 100]
  by (simp add: ex_zero_dev_def ex_dev_def ex_profile_def devfreq_get_freq_level_def
        table_entries_def upt_conv_Cons)

subsection \<open>Sequences of statistics updates\<close>

lemma sum_list_update_add:
  fixes xs :: "'a::comm_monoid_add list"
  shows "i < length xs \<Longrightarrow> sum_list (xs[i := xs ! i + d]) = sum_list xs + d"
proof (induction xs arbitrary: i)
  case Nil
  then show ?case by simp
next
  case (Cons x xs)
  then show ?case by (cases i) (simp_all add: ac_simps)
qed

lemma level_time_update [simp]:
  "devfreq_get_freq_level h (df\<lparr>time_in_state := x\<rparr>) f = devfreq_get_freq_level h df f"
  by (simp add: devfreq_get_freq_level_def table_entries_def)

lemma level_found:
  assumes "stats_ok df" and "f \<in> set (table_entries df)"
  shows "\<exists>lev < max_state (profile df). devfreq_get_freq_level h df f = int lev"
proof -
  from assms have len: "length (table_entries df) = max_state (profile df)"
    by (auto simp: stats_ok_def table_entries_def split: option.splits)
  from assms(2) obtain i where i: "i < length (table_entries df)" "table_entries df ! i = f"
    by (auto simp: in_set_conv_nth)
  then have "find (\<lambda>lev. f = table_entries df ! lev) [0..<max_state (profile df)] \<noteq> None"
    using len by (auto simp: find_None_iff)
  then obtain lev where lev: "find (\<lambda>lev. f = table_entries df ! lev) [0..<max_state (profile df)] = Some lev"
    by auto
  then have "lev < max_state (profile df)" by (auto simp: find_Some_iff)
  with lev show ?thesis by (auto simp: devfreq_get_freq_level_def)
qed

lemma level_nonneg_bound:
  assumes "0 < EINVAL h" and "0 \<le> devfreq_get_freq_level h df f"
  shows "nat (devfreq_get_freq_level h df f) < max_state (profile df)"
  using assms
  by (auto simp: devfreq_get_freq_level_def find_Some_iff split: option.splits)

lemma update_status_profile:
  "profile (snd (devfreq_update_status h now df freq)) = profile df"
  by (simp add: devfreq_update_status_def Let_def)

lemma update_status_lengths:
  "length (time_in_state (snd (devfreq_update_status h now df freq))) = length (time_in_state df)"
  "length (trans_table (snd (devfreq_update_status h now df freq))) = length (trans_table df)"
  by (simp_all add: devfreq_update_status_def Let_def)

lemma update_status_stats_ok:
  "stats_ok df \<Longrightarrow> stats_ok (snd (devfreq_update_status h now df freq))"
  unfolding stats_ok_def by (simp only: update_status_profile update_status_lengths)

lemma update_status_time:
  assumes "stats_ok df" and "previous_freq df \<noteq> 0" and "previous_freq df \<in> set (table_entries df)"
  shows "sum_list (time_in_state (snd (devfreq_update_status h now df freq))) =
           sum_list (time_in_state df) + (now - last_stat_updated df)"
proof -
  from level_found [OF assms(1,3), of h] obtain lev where
    lev: "lev < max_state (profile df)" "devfreq_get_freq_level h df (previous_freq df) = int lev"
    by blast
  from assms(1) have len: "length (time_in_state df) = max_state (profile df)"
    by (simp add: stats_ok_def)
  show ?thesis
    using assms(2) lev len
    by (simp add: devfreq_update_status_def Let_def sum_list_update_add)
qed

lemma update_status_total:
  "total_trans (snd (devfreq_update_status h now df freq)) =
     total_trans df +
       (if previous_freq df \<noteq> 0 \<and>
           0 \<le> devfreq_get_freq_level h df (previous_freq df) \<and>
           0 \<le> devfreq_get_freq_level h df freq \<and>
           devfreq_get_freq_level h df freq \<noteq> devfreq_get_freq_level h df (previous_freq df)
        then 1 else 0)"
  by (simp add: devfreq_update_status_def Let_def)

lemma trans_index_bound:
  fixes a b n :: nat
  assumes "a < n" and "b < n"
  shows "a * n + b < n * n"
proof -
  have "a * n + b < a * n + n" using assms(2) by simp
  also have "\<dots> = Suc a * n" by simp
  also have "\<dots> \<le> n * n" using assms(1) by (intro mult_le_mono1) simp
  finally show ?thesis .
qed

lemma update_status_trans_sum:
  assumes "stats_ok df" and "0 < EINVAL h"
  shows "sum_list (trans_table (snd (devfreq_update_status h now df freq))) =
           sum_list (trans_table df) +
             (total_trans (snd (devfreq_update_status h now df freq)) - total_trans df)"
proof -
  from assms(1) have len: "length (trans_table df) = max_state (profile df) * max_state (profile df)"
    by (simp add: stats_ok_def)
  have idx: "nat (devfreq_get_freq_level h df (previous_freq df)) * max_state (profile df) +
             nat (devfreq_get_freq_level h df freq) < length (trans_table df)"
    if "0 \<le> devfreq_get_freq_level h df (previous_freq df)"
       "0 \<le> devfreq_get_freq_level h df freq"
    using that len level_nonneg_bound [OF assms(2)] by (simp add: trans_index_bound)
  show ?thesis
    using idx
    by (simp add: devfreq_update_status_def Let_def sum_list_update_add)
qed


lemma stats_ok_previous_freq: "stats_ok (df\<lparr>previous_freq := p\<rparr>) = stats_ok df"
  by (simp add: stats_ok_def split: option.splits)

lemma record_transition_profile: "profile (record_transition h c df) = profile df"
  by (cases c) (simp add: record_transition_def update_status_profile)

lemma record_transition_table: "table_entries (record_transition h c df) = table_entries df"
  by (simp add: table_entries_def record_transition_profile)

lemma record_transition_stats_ok: "stats_ok df \<Longrightarrow> stats_ok (record_transition h c df)"
proof -
  assume ok: "stats_ok df"
  obtain prev freq now where c: "c = (prev, freq, now)" by (cases c)
  from ok have "stats_ok (df\<lparr>previous_freq := prev\<rparr>)" by (simp add: stats_ok_previous_freq)
  then show ?thesis unfolding c record_transition_def by (simp add: update_status_stats_ok)
qed

lemma record_transition_stamp:
  "last_stat_updated (record_transition h (prev, freq, now) df) = now"
  by (simp add: record_transition_def devfreq_update_status_def Let_def)

lemma record_transition_time:
  assumes "stats_ok df" and "prev \<noteq> 0" and "prev \<in> set (table_entries df)"
  shows "sum_list (time_in_state (record_transition h (prev, freq, now) df)) =
           sum_list (time_in_state df) + (now - last_stat_updated df)"
proof -
  let ?d = "df\<lparr>previous_freq := prev\<rparr>"
  have "stats_ok ?d" using assms(1) by (simp add: stats_ok_previous_freq)
  moreover have "previous_freq ?d \<noteq> 0" using assms(2) by simp
  moreover have "previous_freq ?d \<in> set (table_entries ?d)"
    using assms(3) by (simp add: table_entries_def)
  ultimately show ?thesis
    using update_status_time [of ?d h now freq] by (simp add: record_transition_def)
qed

lemma record_transition_trans_sum:
  assumes "stats_ok df" and "0 < EINVAL h"
  shows "sum_list (trans_table (record_transition h c df)) - total_trans (record_transition h c df) =
           sum_list (trans_table df) - total_trans df"
proof -
  obtain prev freq now where c: "c = (prev, freq, now)" by (cases c)
  let ?d = "df\<lparr>previous_freq := prev\<rparr>"
  have "stats_ok ?d" using assms(1) by (simp add: stats_ok_previous_freq)
  from update_status_trans_sum [OF this assms(2), of now freq]
  show ?thesis by (simp add: c record_transition_def)
qed

lemma record_transitions_trans_sum:
  assumes "stats_ok df" and "0 < EINVAL h"
  shows "sum_list (trans_table (record_transitions h cs df)) - total_trans (record_transitions h cs df) =
           sum_list (trans_table df) - total_trans df"
  using assms(1)
proof (induction cs arbitrary: df)
  case Nil
  then show ?case by (simp add: record_transitions_def)
next
  case (Cons c cs)
  have unf: "record_transitions h (c # cs) df = record_transitions h cs (record_transition h c df)"
    by (simp add: record_transitions_def)
  show ?case
    unfolding unf
    using Cons.IH [OF record_transition_stats_ok [OF Cons.prems]]
          record_transition_trans_sum [OF Cons.prems assms(2)]
    by simp
qed

lemma update_status_trans_unchanged:
  "\<not> (previous_freq df \<noteq> 0 \<and>
       0 \<le> devfreq_get_freq_level h df (previous_freq df) \<and>
       0 \<le> devfreq_get_freq_level h df freq \<and>
       devfreq_get_freq_level h df freq \<noteq> devfreq_get_freq_level h df (previous_freq df)) \<Longrightarrow>
   trans_table (snd (devfreq_update_status h now df freq)) = trans_table df"
  by (auto simp add: devfreq_update_status_def Let_def)

lemma unat_succ_u32:
  fixes x :: u32
  shows "unat x + 1 < 2 ^ 32 \<Longrightarrow> unat (x + 1) = unat x + 1"
  using unat_add_lem [of x 1] by simp

lemma unat_sum_list_update:
  fixes xs :: "u32 list"
  assumes "i < length xs" and "unat (xs ! i) + 1 < 2 ^ 32"
  shows "sum_list (map unat (xs[i := xs ! i + 1])) = sum_list (map unat xs) + 1"
  using assms
proof (induction xs arbitrary: i)
  case Nil
  then show ?case by simp
next
  case (Cons x xs)
  then show ?case by (cases i) (simp_all add: unat_succ_u32)
qed

lemma unat_nth_le_sum:
  fixes xs :: "u32 list"
  shows "i < length xs \<Longrightarrow> unat (xs ! i) \<le> sum_list (map unat xs)"
proof (induction xs arbitrary: i)
  case Nil
  then show ?case by simp
next
  case (Cons x xs)
  then show ?case by (cases i) (auto intro: trans_le_add2)
qed

lemma update_status_trans_changed:
  "transition_counted h df freq \<Longrightarrow>
   trans_table (snd (devfreq_update_status h now df freq)) =
     (trans_table df)
       [nat (devfreq_get_freq_level h df (previous_freq df)) * max_state (profile df) +
        nat (devfreq_get_freq_level h df freq) :=
          trans_table df ! (nat (devfreq_get_freq_level h df (previous_freq df)) * max_state (profile df) +
                            nat (devfreq_get_freq_level h df freq)) + 1]"
  by (simp add: transition_counted_def devfreq_update_status_def Let_def)

lemma update_status_trans_nat:
  assumes "stats_ok df" and "0 < EINVAL h"
      and "sum_list (map unat (trans_table df)) = unat (total_trans df)"
      and "unat (total_trans df) + 1 < 2 ^ 32"
  shows "sum_list (map unat (trans_table (snd (devfreq_update_status h now df freq)))) =
           unat (total_trans (snd (devfreq_update_status h now df freq))) \<and>
         unat (total_trans (snd (devfreq_update_status h now df freq))) \<le> unat (total_trans df) + 1"
proof (cases "transition_counted h df freq")
  case False
  then have "trans_table (snd (devfreq_update_status h now df freq)) = trans_table df"
    unfolding transition_counted_def by (rule update_status_trans_unchanged)
  moreover have "total_trans (snd (devfreq_update_status h now df freq)) = total_trans df"
    using False unfolding transition_counted_def by (simp add: update_status_total)
  ultimately show ?thesis using assms(3) by simp
next
  case True
  let ?i = "nat (devfreq_get_freq_level h df (previous_freq df)) * max_state (profile df) +
            nat (devfreq_get_freq_level h df freq)"
  from assms(1) have len: "length (trans_table df) = max_state (profile df) * max_state (profile df)"
    by (simp add: stats_ok_def)
  have i: "?i < length (trans_table df)"
    using True len level_nonneg_bound [OF assms(2)]
    by (simp add: transition_counted_def trans_index_bound)
  have "unat (trans_table df ! ?i) \<le> unat (total_trans df)"
    using unat_nth_le_sum [OF i] assms(3) by simp
  then have small: "unat (trans_table df ! ?i) + 1 < 2 ^ 32" using assms(4) by simp
  have tot: "total_trans (snd (devfreq_update_status h now df freq)) = total_trans df + 1"
    using True unfolding transition_counted_def by (simp add: update_status_total)
  show ?thesis
    unfolding tot update_status_trans_changed [OF True]
    using unat_sum_list_update [OF i small] assms(3) unat_succ_u32 [OF assms(4)]
    by simp
qed

lemma record_transitions_trans_nat:
  assumes "0 < EINVAL h"
  shows "stats_ok df \<Longrightarrow>
         sum_list (map unat (trans_table df)) = unat (total_trans df) \<Longrightarrow>
         unat (total_trans df) + length cs < 2 ^ 32 \<Longrightarrow>
         sum_list (map unat (trans_table (record_transitions h cs df))) =
           unat (total_trans (record_transitions h cs df))"
proof (induction cs arbitrary: df)
  case Nil
  then show ?case by (simp add: record_transitions_def)
next
  case (Cons c cs)
  obtain prev freq now where c: "c = (prev, freq, now)" by (cases c)
  let ?p = "df\<lparr>previous_freq := prev\<rparr>"
  let ?d = "record_transition h c df"
  have d: "?d = snd (devfreq_update_status h now ?p freq)"
    by (simp add: c record_transition_def)
  have okp: "stats_ok ?p" using Cons.prems(1) by (simp add: stats_ok_previous_freq)
  have sump: "sum_list (map unat (trans_table ?p)) = unat (total_trans ?p)"
    using Cons.prems(2) by simp
  have room: "unat (total_trans ?p) + 1 < 2 ^ 32" using Cons.prems(3) by simp
  from update_status_trans_nat [OF okp assms sump room, of now freq]
  have step: "sum_list (map unat (trans_table ?d)) = unat (total_trans ?d)"
     and bound: "unat (total_trans ?d) \<le> unat (total_trans df) + 1"
    by (simp_all add: d)
  have room': "unat (total_trans ?d) + length cs < 2 ^ 32"
    using bound Cons.prems(3) by simp
  have unf: "record_transitions h (c # cs) df = record_transitions h cs ?d"
    by (simp add: record_transitions_def)
  show ?case
    unfolding unf
    by (rule Cons.IH [OF record_transition_stats_ok [OF Cons.prems(1)] step room'])
qed

text \<open>
  C3 (as stated, refuted): with the table \<open>[100, 200, 300]\<close> and all counters zero, a
  call with previous frequency 100 and new frequency 250 at tick 10, followed by a call
  with previous and new frequency 250 at tick 20 (what two runs of \<open>update_devfreq\<close>
  do when the governor asks for 250), leaves 10 ticks accounted for although 20 ticks
  passed between the first and the last stamp.
\<close>

theorem record_transitions_time_in_state_counterexample:
  "stats_ok ex_dev \<and> sum_list (time_in_state ex_dev) = 0 \<and>
   sum_list (time_in_state
     (record_transitions linux_hdr [(100, 250, 10), (250, 250, 20)] ex_dev)) = 10 \<and>
   last_stat_updated (record_transitions linux_hdr [(100, 250, 10), (250, 250, 20)] ex_dev) -
     last_stat_updated ex_dev = 20 \<and>
   sum_list (time_in_state
     (record_transitions linux_hdr [(100, 250, 10), (250, 250, 20)] ex_dev)) \<noteq>
   last_stat_updated (record_transitions linux_hdr [(100, 250, 10), (250, 250, 20)] ex_dev) -
     last_stat_updated ex_dev"
  by (simp add: record_transitions_def record_transition_def devfreq_update_status_def
      devfreq_get_freq_level_def table_entries_def ex_dev_def ex_profile_def linux_hdr_def
      stats_ok_def upt_conv_Cons Let_def)

text \<open>
  The same loss through \<open>update_devfreq\<close> itself: governor 3 asks for 250, which the
  bounds 100 and 300 let through and the driver accepts. The first run, at tick 10, stores
  250 in \<open>previous_freq\<close>; the second, at tick 20, stamps the time without accounting
  for the ten ticks since.
\<close>

lemma update_devfreq_off_table_twice:
  "time_in_state (fst (snd (update_devfreq linux_hdr ex_gov 20
      (fst (snd (update_devfreq linux_hdr ex_gov 10
         (ex_dev\<lparr>governor := Some 3, lock := True\<rparr>))))))) = [10, 0, 0] \<and>
   last_stat_updated (fst (snd (update_devfreq linux_hdr ex_gov 20
      (fst (snd (update_devfreq linux_hdr ex_gov 10
         (ex_dev\<lparr>governor := Some 3, lock := True\<rparr>))))))) = 20 \<and>
   previous_freq (fst (snd (update_devfreq linux_hdr ex_gov 10
         (ex_dev\<lparr>governor := Some 3, lock := True\<rparr>)))) = 250 \<and>
   target_calls (snd (snd (update_devfreq linux_hdr ex_gov 10
         (ex_dev\<lparr>governor := Some 3, lock := True\<rparr>)))) = [(250, 0)]"
  by code_simp

text \<open>
  C3 (amended): for every sequence of \<open>devfreq_update_status\<close> calls in which the
  previous frequency is, at each call, nonzero and an entry of the frequency table, the
  sum of \<open>time_in_state\<close> grows by the final \<open>last_stat_updated\<close> minus the initial
  one, in \<open>unsigned long\<close> arithmetic, whether or not the new frequencies are in the
  table.
\<close>

theorem record_transitions_time_in_state:
  assumes "stats_ok df"
      and "\<forall>(prev, freq, now) \<in> set cs. prev \<noteq> 0 \<and> prev \<in> set (table_entries df)"
  shows "sum_list (time_in_state (record_transitions h cs df)) =
           sum_list (time_in_state df) +
             (last_stat_updated (record_transitions h cs df) - last_stat_updated df)"
  using assms
proof (induction cs arbitrary: df)
  case Nil
  then show ?case by (simp add: record_transitions_def)
next
  case (Cons c cs)
  obtain prev freq now where c: "c = (prev, freq, now)" by (cases c)
  let ?d = "record_transition h c df"
  have ok: "stats_ok ?d" using Cons.prems(1) by (rule record_transition_stats_ok)
  have rest: "\<forall>(prev, freq, now) \<in> set cs. prev \<noteq> 0 \<and> prev \<in> set (table_entries ?d)"
    using Cons.prems(2) by (simp add: record_transition_table)
  have first: "sum_list (time_in_state ?d) = sum_list (time_in_state df) + (now - last_stat_updated df)"
    using Cons.prems c by (simp add: record_transition_time)
  have stamp: "last_stat_updated ?d = now" by (simp add: c record_transition_stamp)
  have unf: "record_transitions h (c # cs) df = record_transitions h cs ?d"
    by (simp add: record_transitions_def)
  show ?case
    unfolding unf using Cons.IH [OF ok rest] first stamp by simp
qed

theorem record_transitions_time_in_state_witness:
  "stats_ok ex_dev \<and> (100 :: ulong) \<noteq> 0 \<and> 100 \<in> set (table_entries ex_dev) \<and>
   250 \<notin> set (table_entries ex_dev) \<and>
   time_in_state (record_transitions linux_hdr [(100, 250, 10), (100, 200, 25)] ex_dev) =
     [25, 0, 0] \<and>
   sum_list (time_in_state (record_transitions linux_hdr [(100, 250, 10), (100, 200, 25)] ex_dev)) =
     sum_list (time_in_state ex_dev) +
       (last_stat_updated (record_transitions linux_hdr [(100, 250, 10), (100, 200, 25)] ex_dev) -
        last_stat_updated ex_dev)"
proof -
  have ok: "stats_ok ex_dev"
    by (simp add: stats_ok_def ex_dev_def ex_profile_def)
  have pre: "\<forall>(prev, freq, now) \<in> set [(100, 250, 10), (100 :: ulong, 200 :: ulong, 25 :: ulong)].
      prev \<noteq> 0 \<and> prev \<in> set (table_entries ex_dev)"
    by (simp add: table_entries_def ex_dev_def ex_profile_def)
  have run: "time_in_state (record_transitions linux_hdr [(100, 250, 10), (100, 200, 25)] ex_dev) =
     [25, 0, 0]"
    by (simp add: record_transitions_def record_transition_def devfreq_update_status_def
        devfreq_get_freq_level_def table_entries_def ex_dev_def ex_profile_def linux_hdr_def
        upt_conv_Cons Let_def)
  have mem: "(100 :: ulong) \<noteq> 0" "100 \<in> set (table_entries ex_dev)"
    "250 \<notin> set (table_entries ex_dev)"
    by (simp_all add: table_entries_def ex_dev_def ex_profile_def)
  show ?thesis
    using record_transitions_time_in_state [OF ok pre, of linux_hdr] ok mem run by simp
qed

text \<open>
  One round trip adds one to the entry from level 0 to level 1, one to the entry from
  level 1 to level 0 and two to \<open>total_trans\<close>, all in 32-bit arithmetic.
\<close>

lemma ex_profile_levels:
  assumes "profile d = ex_profile"
  shows "devfreq_get_freq_level linux_hdr d 100 = 0"
    and "devfreq_get_freq_level linux_hdr d 200 = 1"
  using assms
  by (simp_all add: devfreq_get_freq_level_def table_entries_def ex_profile_def upt_conv_Cons)

lemma round_trip_up:
  assumes "profile d = ex_profile"
      and "trans_table d = [0, a, 0, b, 0, 0, 0, 0, 0]" and "total_trans d = c"
  shows "profile (record_transition linux_hdr (100, 200, t) d) = ex_profile \<and>
         trans_table (record_transition linux_hdr (100, 200, t) d) =
           [0, a + 1, 0, b, 0, 0, 0, 0, 0] \<and>
         total_trans (record_transition linux_hdr (100, 200, t) d) = c + 1"
proof -
  let ?p = "d\<lparr>previous_freq := 100\<rparr>"
  have p: "profile ?p = ex_profile" using assms(1) by simp
  have cnt: "transition_counted linux_hdr ?p 200"
    by (simp add: transition_counted_def ex_profile_levels [OF p])
  have ms: "max_state (profile ?p) = 3" using assms(1) by (simp add: ex_profile_def)
  show ?thesis
    unfolding record_transition_def
    using update_status_trans_changed [OF cnt, of t] update_status_total [of linux_hdr t ?p 200]
          cnt assms ms
    by (simp add: update_status_profile ex_profile_levels [OF p] transition_counted_def)
qed

lemma round_trip_down:
  assumes "profile d = ex_profile"
      and "trans_table d = [0, a, 0, b, 0, 0, 0, 0, 0]" and "total_trans d = c"
  shows "profile (record_transition linux_hdr (200, 100, t) d) = ex_profile \<and>
         trans_table (record_transition linux_hdr (200, 100, t) d) =
           [0, a, 0, b + 1, 0, 0, 0, 0, 0] \<and>
         total_trans (record_transition linux_hdr (200, 100, t) d) = c + 1"
proof -
  let ?p = "d\<lparr>previous_freq := 200\<rparr>"
  have p: "profile ?p = ex_profile" using assms(1) by simp
  have cnt: "transition_counted linux_hdr ?p 100"
    by (simp add: transition_counted_def ex_profile_levels [OF p])
  have ms: "max_state (profile ?p) = 3" using assms(1) by (simp add: ex_profile_def)
  show ?thesis
    unfolding record_transition_def
    using update_status_trans_changed [OF cnt, of t] update_status_total [of linux_hdr t ?p 100]
          cnt assms ms
    by (simp add: update_status_profile ex_profile_levels [OF p] transition_counted_def
          numeral_3_eq_3)
qed

lemma round_trips_counters:
  "profile d = ex_profile \<Longrightarrow>
   trans_table d = [0, a, 0, a, 0, 0, 0, 0, 0] \<Longrightarrow> total_trans d = c \<Longrightarrow>
   trans_table (record_transitions linux_hdr (ex_round_trips n) d) =
     [0, a + of_nat n, 0, a + of_nat n, 0, 0, 0, 0, 0] \<and>
   total_trans (record_transitions linux_hdr (ex_round_trips n) d) = c + of_nat (2 * n)"
proof (induction n arbitrary: d a c)
  case 0
  then show ?case by (simp add: ex_round_trips_def record_transitions_def)
next
  case (Suc n)
  let ?d1 = "record_transition linux_hdr (100, 200, 1) d"
  let ?d2 = "record_transition linux_hdr (200, 100, 2) ?d1"
  from round_trip_up [OF Suc.prems, of 1]
  have u: "profile ?d1 = ex_profile" "trans_table ?d1 = [0, a + 1, 0, a, 0, 0, 0, 0, 0]"
      "total_trans ?d1 = c + 1"
    by simp_all
  from round_trip_down [OF u, of 2]
  have v: "profile ?d2 = ex_profile" "trans_table ?d2 = [0, a + 1, 0, a + 1, 0, 0, 0, 0, 0]"
      "total_trans ?d2 = c + 1 + 1"
    by simp_all
  have unf: "record_transitions linux_hdr (ex_round_trips (Suc n)) d =
             record_transitions linux_hdr (ex_round_trips n) ?d2"
    by (simp add: ex_round_trips_def record_transitions_def)
  show ?case
    unfolding unf using Suc.IH [OF v] by (simp add: algebra_simps)
qed

text \<open>
  C4 (as stated, refuted): the counters are \<open>unsigned int\<close>. From zero counters,
  \<open>2^31\<close> round trips (\<open>2^32\<close> calls) leave \<open>2^31\<close> in each of two entries of
  \<open>trans_table\<close>, which add up to \<open>2^32\<close>, while \<open>total_trans\<close> has wrapped
  around to 0.
\<close>

theorem record_transitions_trans_table_counterexample:
  "stats_ok ex_dev \<and> total_trans ex_dev = 0 \<and> trans_table ex_dev = replicate 9 0 \<and>
   length (ex_round_trips 2147483648) = 4294967296 \<and>
   sum_list (map unat (trans_table
     (record_transitions linux_hdr (ex_round_trips 2147483648) ex_dev))) = 4294967296 \<and>
   unat (total_trans (record_transitions linux_hdr (ex_round_trips 2147483648) ex_dev)) = 0 \<and>
   sum_list (map unat (trans_table
     (record_transitions linux_hdr (ex_round_trips 2147483648) ex_dev))) \<noteq>
   unat (total_trans (record_transitions linux_hdr (ex_round_trips 2147483648) ex_dev))"
proof -
  have ok: "stats_ok ex_dev" by (simp add: stats_ok_def ex_dev_def ex_profile_def)
  have p: "profile ex_dev = ex_profile" by (simp add: ex_dev_def)
  have t: "trans_table ex_dev = [0, 0, 0, 0, 0, 0, 0, 0, 0]"
    by (simp add: ex_dev_def numeral_eq_Suc)
  have t': "trans_table ex_dev = replicate 9 0" by (simp add: ex_dev_def)
  have c: "total_trans ex_dev = 0" by (simp add: ex_dev_def)
  have len: "length (ex_round_trips 2147483648) = 4294967296"
    by (simp add: ex_round_trips_def length_concat sum_list_replicate)
  from round_trips_counters [OF p t c, of 2147483648]
  have r: "trans_table (record_transitions linux_hdr (ex_round_trips 2147483648) ex_dev) =
             [0, 2147483648, 0, 2147483648, 0, 0, 0, 0, 0]"
          "total_trans (record_transitions linux_hdr (ex_round_trips 2147483648) ex_dev) = 0"
    by simp_all
  show ?thesis
    unfolding r using ok c t' len by simp
qed

text \<open>
  C4 (amended): on a device whose transition counters start at zero, after every sequence
  of \<open>devfreq_update_status\<close> calls the entries of \<open>trans_table\<close> add up to
  \<open>total_trans\<close> modulo \<open>2^32\<close>, and as numbers as long as fewer than \<open>2^32\<close>
  calls were made. A single call adds one to \<open>total_trans\<close> and to the entry at row
  previous level, column new level exactly when \<open>previous_freq\<close> is set, both levels
  were found and they differ; otherwise it leaves both unchanged.
\<close>

theorem record_transitions_trans_table:
  assumes "stats_ok df" and "0 < EINVAL h"
      and "total_trans df = 0"
      and "trans_table df = replicate (max_state (profile df) * max_state (profile df)) 0"
  shows "sum_list (trans_table (record_transitions h cs df)) =
           total_trans (record_transitions h cs df) \<and>
         (length cs < 2 ^ 32 \<longrightarrow>
            sum_list (map unat (trans_table (record_transitions h cs df))) =
              unat (total_trans (record_transitions h cs df))) \<and>
         total_trans (snd (devfreq_update_status h now d freq)) =
           total_trans d + (if transition_counted h d freq then 1 else 0) \<and>
         trans_table (snd (devfreq_update_status h now d freq)) =
           (if transition_counted h d freq
            then (trans_table d)
                   [nat (devfreq_get_freq_level h d (previous_freq d)) * max_state (profile d) +
                    nat (devfreq_get_freq_level h d freq) :=
                      trans_table d !
                        (nat (devfreq_get_freq_level h d (previous_freq d)) * max_state (profile d) +
                         nat (devfreq_get_freq_level h d freq)) + 1]
            else trans_table d)"
proof -
  have w0: "sum_list (trans_table df) = total_trans df"
    using assms(3,4) by (simp add: sum_list_replicate)
  have n0: "sum_list (map unat (trans_table df)) = unat (total_trans df)"
    using assms(3,4) by (simp add: sum_list_replicate)
  have words: "sum_list (trans_table (record_transitions h cs df)) =
                 total_trans (record_transitions h cs df)"
    using record_transitions_trans_sum [OF assms(1,2), of cs] w0 by simp
  have nats: "sum_list (map unat (trans_table (record_transitions h cs df))) =
                unat (total_trans (record_transitions h cs df))" if "length cs < 2 ^ 32"
    using record_transitions_trans_nat [OF assms(2,1) n0] that assms(3) by simp
  have tot: "total_trans (snd (devfreq_update_status h now d freq)) =
               total_trans d + (if transition_counted h d freq then 1 else 0)"
    by (simp add: update_status_total transition_counted_def)
  have tab: "trans_table (snd (devfreq_update_status h now d freq)) =
      (if transition_counted h d freq
       then (trans_table d)
              [nat (devfreq_get_freq_level h d (previous_freq d)) * max_state (profile d) +
               nat (devfreq_get_freq_level h d freq) :=
                 trans_table d !
                   (nat (devfreq_get_freq_level h d (previous_freq d)) * max_state (profile d) +
                    nat (devfreq_get_freq_level h d freq)) + 1]
       else trans_table d)"
  proof (cases "transition_counted h d freq")
    case True
    then show ?thesis by (simp add: update_status_trans_changed)
  next
    case False
    then have "trans_table (snd (devfreq_update_status h now d freq)) = trans_table d"
      unfolding transition_counted_def by (rule update_status_trans_unchanged)
    with False show ?thesis by simp
  qed
  show ?thesis
    using words nats tot tab by (intro conjI impI)
qed


theorem record_transitions_trans_table_witness:
  "stats_ok ex_dev \<and> 0 < EINVAL linux_hdr \<and> total_trans ex_dev = 0 \<and>
   trans_table ex_dev = replicate (max_state (profile ex_dev) * max_state (profile ex_dev)) 0 \<and>
   length [(100, 200, 10), (200, 250, 20), (200, 200, 30), (200 :: ulong, 300 :: ulong, 40 :: ulong)] < 2 ^ 32 \<and>
   trans_table (record_transitions linux_hdr
       [(100, 200, 10), (200, 250, 20), (200, 200, 30), (200, 300, 40)] ex_dev) =
     [0, 1, 0, 0, 0, 1, 0, 0, 0] \<and>
   total_trans (record_transitions linux_hdr
       [(100, 200, 10), (200, 250, 20), (200, 200, 30), (200, 300, 40)] ex_dev) = 2 \<and>
   transition_counted linux_hdr ex_dev 200"
proof -
  have ok: "stats_ok ex_dev"
    by (simp add: stats_ok_def ex_dev_def ex_profile_def)
  have e: "0 < EINVAL linux_hdr" by (simp add: linux_hdr_def)
  have t0: "total_trans ex_dev = 0" by (simp add: ex_dev_def)
  have m0: "trans_table ex_dev =
      replicate (max_state (profile ex_dev) * max_state (profile ex_dev)) 0"
    by (simp add: ex_dev_def ex_profile_def)
  have len: "length [(100, 200, 10), (200, 250, 20), (200, 200, 30), (200 :: ulong, 300 :: ulong, 40 :: ulong)]
      < 2 ^ 32"
    by simp
  have run: "trans_table (record_transitions linux_hdr
       [(100, 200, 10), (200, 250, 20), (200, 200, 30), (200, 300, 40)] ex_dev) =
     [0, 1, 0, 0, 0, 1, 0, 0, 0]"
    by code_simp
  have cnt: "transition_counted linux_hdr ex_dev 200"
    by code_simp
  have sum: "sum_list [0, 1, 0, 0, 0, 1, 0, 0, 0 :: u32] = 2" by simp
  from record_transitions_trans_table [OF ok e t0 m0,
          of "[(100, 200, 10), (200, 250, 20), (200, 200, 30), (200, 300, 40)]" 10 ex_dev 200]
  have "sum_list (trans_table (record_transitions linux_hdr
       [(100, 200, 10), (200, 250, 20), (200, 200, 30), (200, 300, 40)] ex_dev)) =
     total_trans (record_transitions linux_hdr
       [(100, 200, 10), (200, 250, 20), (200, 200, 30), (200, 300, 40)] ex_dev)"
    by (rule conjunct1)
  then have tot: "total_trans (record_transitions linux_hdr
       [(100, 200, 10), (200, 250, 20), (200, 200, 30), (200, 300, 40)] ex_dev) = 2"
    unfolding run sum by (rule sym)
  show ?thesis
    using ok e t0 m0 len run tot cnt by (intro conjI)
qed

section \<open>Properties of the bounds derivation\<close>

lemma Min_insert_min:
  fixes a b :: "'a::linorder"
  shows "finite S \<Longrightarrow> Min (insert (min a b) S) = Min (insert a (insert b S))"
  by (cases "S = {}") (simp_all add: min.assoc)

lemma Max_insert_max:
  fixes a b :: "'a::linorder"
  shows "finite S \<Longrightarrow> Max (insert (max a b) S) = Max (insert a (insert b S))"
  by (cases "S = {}") (simp_all add: max.assoc)

lemma freq_limits_loop_Min_Max:
  "freq_limits_loop t idxs (mn, mx) =
     (Min (insert mn ((!) t ` set idxs)), Max (insert mx ((!) t ` set idxs)))"
proof (induction idxs arbitrary: mn mx)
  case Nil
  then show ?case by simp
next
  case (Cons idx idxs)
  have mn: "(if mn > t ! idx then t ! idx else mn) = min mn (t ! idx)"
    by (auto simp: min_def)
  have mx: "(if mx < t ! idx then t ! idx else mx) = max mx (t ! idx)"
    by (auto simp: max_def)
  show ?case
    by (simp only: freq_limits_loop.simps mn mx Cons.IH)
       (simp add: Min_insert_min Max_insert_max)
qed

text \<open>
  Without a frequency table (\<open>freq_table == NULL\<close>) the bounds are left as they were;
  with a table of \<open>max_state \<ge> 1\<close> entries they become the least and the greatest
  entry.
\<close>

lemma devfreq_set_freq_limits_null:
  "freq_table (profile df) = None \<Longrightarrow> devfreq_set_freq_limits df = df"
  by (simp add: devfreq_set_freq_limits_def)

lemma devfreq_set_freq_limits_table:
  assumes "freq_table (profile df) = Some t" and "max_state (profile df) = length t"
      and "t \<noteq> []"
  shows "min_freq (devfreq_set_freq_limits df) = Min (set t) \<and>
         max_freq (devfreq_set_freq_limits df) = Max (set t)"
proof -
  have img: "(!) t ` {0..<length t} = set t"
    using nth_image [of "length t" t] by simp
  have fin: "finite (set t)" "set t \<noteq> {}" using assms(3) by simp_all
  have lo: "Min (insert (NOT 0) (set t)) = Min (set t)"
  proof -
    have "Min (set t) \<le> (- 1 :: ulong)" by (rule word_n1_ge)
    then show ?thesis using fin by (simp add: min_absorb2)
  qed
  have hi: "Max (insert 0 (set t)) = Max (set t)"
    using fin by (simp add: max_def)
  show ?thesis
    using assms(1,2) lo hi
    by (simp add: devfreq_set_freq_limits_def freq_limits_loop_Min_Max img)
qed

text \<open>
  C7: the bounds of a table with entries and of a missing table are as claimed (the two
  lemmas above). A table pointer that is not \<open>NULL\<close> with \<open>max_state = 0\<close> is
  different: the loop does not run and the initial values are stored, \<open>min_freq = ~0\<close>
  (\<open>ULONG_MAX\<close>) and \<open>max_freq = 0\<close>, although both bounds were 0 before. That is the
  state \<open>devfreq_set_freq_table\<close> leaves when a lookup fails (it frees the table and
  resets \<open>max_state\<close>, but not the pointer), so it is reached inside
  \<open>devfreq_add_device\<close> from a profile without a table.
\<close>

theorem devfreq_set_freq_limits_empty_table:
  "min_freq ex_empty_table_dev = 0 \<and> max_freq ex_empty_table_dev = 0 \<and>
   max_state (profile ex_empty_table_dev) = 0 \<and>
   min_freq (devfreq_set_freq_limits ex_empty_table_dev) = 18446744073709551615 \<and>
   max_freq (devfreq_set_freq_limits ex_empty_table_dev) = 0 \<and>
   freq_table (profile ex_notable_dev) = None \<and>
   max_state (profile (devfreq_add_device_limits ex_failing_opp ex_notable_dev)) = 0 \<and>
   min_freq (devfreq_add_device_limits ex_failing_opp ex_notable_dev) = 18446744073709551615 \<and>
   max_freq (devfreq_add_device_limits ex_failing_opp ex_notable_dev) = 0"
  by code_simp


section \<open>Properties of the frequency update\<close>

lemma target_calls_append: "target_calls (xs @ ys) = target_calls xs @ target_calls ys"
  by (induction xs rule: target_calls.induct) simp_all

lemma adjust_freq_eq:
  "adjust_freq h df t =
     (let t1 = (if min_freq df \<noteq> 0 \<and> t < min_freq df then min_freq df else t);
          hi = (max_freq df \<noteq> 0 \<and> t1 > max_freq df)
      in (if hi then max_freq df else t1,
          if hi then DEVFREQ_FLAG_LEAST_UPPER_BOUND h else 0))"
  by (simp add: adjust_freq_def Let_def)

lemma target_calls_requested: "target_calls (snd (snd (requested_freq gov g df))) = []"
  by (simp add: requested_freq_def split: prod.split)

lemma target_calls_current: "target_calls (snd (current_freq df)) = []"
  by (simp add: current_freq_def split: option.split)

lemma target_calls_notify: "target_calls (devfreq_notify_transition fr st) = []"
  by (cases st) (simp_all add: devfreq_notify_transition_def)

lemma target_calls_status: "target_calls (snd (update_status_logged h j df f)) = []"
  by (simp add: update_status_logged_def split: prod.split)

text \<open>
  The driver's \<open>target\<close> callback is called at most once, exactly when the lock is held,
  a governor is attached and the requested frequency was obtained, and then with the
  adjusted frequency and flags.
\<close>

lemma update_devfreq_target_calls:
  "target_calls (snd (snd (update_devfreq h gov jiffies df))) =
     (case governor df of None \<Rightarrow> [] | Some g \<Rightarrow>
        if lock df \<and> fst (requested_freq gov g df) = 0
        then [adjust_freq h df (fst (snd (requested_freq gov g df)))] else [])"
proof (cases "governor df")
  case None
  then show ?thesis by (simp add: update_devfreq_def)
next
  case (Some g)
  obtain e0 f0 ev0 where rq: "requested_freq gov g df = (e0, f0, ev0)"
    by (cases "requested_freq gov g df")
  obtain f fl where adj: "adjust_freq h df f0 = (f, fl)" by (cases "adjust_freq h df f0")
  obtain c ev1 where cur: "current_freq df = (c, ev1)" by (cases "current_freq df")
  obtain e f' where tg: "target (profile df) f fl = (e, f')" by (cases "target (profile df) f fl")
  obtain d ev3 where st: "update_status_logged h jiffies df f' = (d, ev3)"
    by (cases "update_status_logged h jiffies df f'")
  have r0: "target_calls ev0 = []" using target_calls_requested [of gov g df] rq by simp
  have r1: "target_calls ev1 = []" using target_calls_current [of df] cur by simp
  have r3: "target_calls ev3 = []" using target_calls_status [of h jiffies df f'] st by simp
  show ?thesis
    using Some rq adj cur tg st r0 r1 r3
    by (simp add: update_devfreq_def Let_def target_calls_append target_calls_notify)
qed

text \<open>The whole result of \<open>update_devfreq\<close> when the driver's \<open>target\<close> callback fails.\<close>

lemma update_devfreq_failed_target:
  assumes "lock df" and "governor df = Some g"
    and "fst (requested_freq gov g df) = 0"
    and "adjust_freq h df (fst (snd (requested_freq gov g df))) = (f, fl)"
    and "fst (target (profile df) f fl) \<noteq> 0"
  shows "update_devfreq h gov jiffies df =
           (fst (target (profile df) f fl), df,
            snd (snd (requested_freq gov g df)) @ snd (current_freq df) @
            [Notify DEVFREQ_PRECHANGE (fst (current_freq df)) f, Target f fl,
             Notify DEVFREQ_POSTCHANGE (fst (current_freq df)) (fst (current_freq df))])"
proof -
  obtain e0 f0 ev0 where rq: "requested_freq gov g df = (e0, f0, ev0)"
    by (cases "requested_freq gov g df")
  obtain c ev1 where cur: "current_freq df = (c, ev1)" by (cases "current_freq df")
  obtain e f' where tg: "target (profile df) f fl = (e, f')" by (cases "target (profile df) f fl")
  show ?thesis
    using assms rq cur tg
    by (simp add: update_devfreq_def Let_def devfreq_notify_transition_def)
qed

text \<open>
  C1: on a device with a governor attached and \<open>max_boost\<close> clear, the driver's
  \<open>target\<close> callback is called (when the lock is held and the governor returned 0) with
  the governor's frequency \<open>t\<close> clamped to the user bounds. The floor is applied first:
  a nonzero \<open>min_freq\<close> above \<open>t\<close> replaces it, giving \<open>t1\<close>, with the
  least-upper-bound flag clear (greatest lower bound). The ceiling is applied second, to
  \<open>t1\<close>: a nonzero \<open>max_freq\<close> below \<open>t1\<close> replaces it and sets the
  least-upper-bound flag, whatever the floor did. Otherwise the callback is not called.
\<close>

theorem update_devfreq_clamps_target:
  assumes "governor df = Some g" and "\<not> max_boost df"
  shows "target_calls (snd (snd (update_devfreq h gov jiffies df))) =
     (let t = snd (get_target_freq (gov g) df);
          t1 = (if min_freq df \<noteq> 0 \<and> t < min_freq df then min_freq df else t);
          hi = (max_freq df \<noteq> 0 \<and> t1 > max_freq df)
      in if lock df \<and> fst (get_target_freq (gov g) df) = 0
         then [(if hi then max_freq df else t1,
                if hi then DEVFREQ_FLAG_LEAST_UPPER_BOUND h else 0)]
         else [])"
  using assms
  by (simp add: update_devfreq_target_calls adjust_freq_eq requested_freq_def Let_def
        split: prod.split)

lemma ex_floor_run:
  "target_calls (snd (snd (update_devfreq linux_hdr ex_gov 40 ex_floor_dev))) = [(150, 0)]"
  by (simp add: update_devfreq_target_calls adjust_freq_eq requested_freq_def Let_def
        ex_floor_dev_def ex_dev_def ex_gov_def fixed_gov_def)

theorem update_devfreq_clamps_target_witness:
  "governor ex_floor_dev = Some 5 \<and> \<not> max_boost ex_floor_dev \<and>
   get_target_freq (ex_gov 5) ex_floor_dev = (0, 100) \<and> min_freq ex_floor_dev = 150 \<and>
   target_calls (snd (snd (update_devfreq linux_hdr ex_gov 40 ex_floor_dev))) = [(150, 0)]"
proof -
  have a: "governor ex_floor_dev = Some 5" and b: "\<not> max_boost ex_floor_dev"
    by (simp_all add: ex_floor_dev_def ex_dev_def)
  have c: "get_target_freq (ex_gov 5) ex_floor_dev = (0, 100)"
    by (simp add: ex_gov_def fixed_gov_def)
  have d: "min_freq ex_floor_dev = 150" "max_freq ex_floor_dev = 300" "lock ex_floor_dev"
    by (simp_all add: ex_floor_dev_def ex_dev_def)
  show ?thesis
    using update_devfreq_clamps_target [OF a b, of linux_hdr ex_gov 40] a b c d
    by simp
qed

text \<open>
  C2: whenever the driver's \<open>target\<close> callback, called with \<open>(f, fl)\<close>, returns an
  error, \<open>update_devfreq\<close> returns that error, the last two events of the call are the
  callback and a post-change notification whose old and new frequency are both the
  current frequency (the driver's, or \<open>previous_freq\<close> without a \<open>get_cur_freq\<close>
  callback), and the device is unchanged: in particular \<open>previous_freq\<close>,
  \<open>time_in_state\<close>, \<open>trans_table\<close> and \<open>total_trans\<close>.
\<close>

theorem update_devfreq_target_error:
  assumes "(f, fl) \<in> set (target_calls (snd (snd (update_devfreq h gov jiffies df))))"
      and "fst (target (profile df) f fl) \<noteq> 0"
  shows "fst (update_devfreq h gov jiffies df) = fst (target (profile df) f fl) \<and>
         fst (snd (update_devfreq h gov jiffies df)) = df \<and>
         (\<exists>pre. snd (snd (update_devfreq h gov jiffies df)) =
            pre @ [Target f fl,
                   Notify DEVFREQ_POSTCHANGE
                     (case get_cur_freq (profile df) of
                        Some (r, c) \<Rightarrow> c | None \<Rightarrow> previous_freq df)
                     (case get_cur_freq (profile df) of
                        Some (r, c) \<Rightarrow> c | None \<Rightarrow> previous_freq df)])"
proof (cases "governor df")
  case None
  with assms(1) show ?thesis by (simp add: update_devfreq_target_calls)
next
  case (Some g)
  with assms(1) have g: "lock df" "fst (requested_freq gov g df) = 0"
      "adjust_freq h df (fst (snd (requested_freq gov g df))) = (f, fl)"
    by (simp_all add: update_devfreq_target_calls split: if_splits)
  have cf: "fst (current_freq df) =
      (case get_cur_freq (profile df) of Some (r, c) \<Rightarrow> c | None \<Rightarrow> previous_freq df)"
    by (simp add: current_freq_def split: option.split)
  show ?thesis
    unfolding update_devfreq_failed_target [OF g(1) Some g(2) g(3) assms(2)] cf [symmetric]
    by simp
qed

lemma ex_failing_run:
  "snd (snd (update_devfreq linux_hdr ex_gov 40 ex_failing_dev)) =
     [GetTargetFreq 1, Notify DEVFREQ_PRECHANGE 100 300, Target 300 1,
      Notify DEVFREQ_POSTCHANGE 100 100]"
  by (simp add: update_devfreq_def ex_failing_dev_def ex_dev_def ex_profile_def ex_gov_def
      fixed_gov_def linux_hdr_def requested_freq_def adjust_freq_def current_freq_def
      devfreq_notify_transition_def)

theorem update_devfreq_target_error_witness:
  "(300, 1) \<in> set (target_calls (snd (snd (update_devfreq linux_hdr ex_gov 40 ex_failing_dev)))) \<and>
   fst (target (profile ex_failing_dev) 300 1) \<noteq> 0 \<and>
   fst (update_devfreq linux_hdr ex_gov 40 ex_failing_dev) = - 5 \<and>
   fst (snd (update_devfreq linux_hdr ex_gov 40 ex_failing_dev)) = ex_failing_dev \<and>
   snd (snd (update_devfreq linux_hdr ex_gov 40 ex_failing_dev)) =
     [GetTargetFreq 1, Notify DEVFREQ_PRECHANGE 100 300, Target 300 1,
      Notify DEVFREQ_POSTCHANGE 100 100]"
proof -
  have a: "(300, 1) \<in> set (target_calls (snd (snd (update_devfreq linux_hdr ex_gov 40 ex_failing_dev))))"
    by (simp add: ex_failing_run)
  have b: "fst (target (profile ex_failing_dev) 300 1) \<noteq> 0"
    by (simp add: ex_failing_dev_def)
  have c: "fst (target (profile ex_failing_dev) 300 1) = - 5"
    by (simp add: ex_failing_dev_def)
  show ?thesis
    using update_devfreq_target_error [OF a b] a b c by (simp add: ex_failing_run)
qed

section \<open>Properties of the administrative writes\<close>

text \<open>
  C9: a \<open>min_freq\<close> write to a device flagged \<open>is_boost_device\<close> returns the byte count
  and does nothing else: the device, \<open>min_freq\<close> included, is unchanged, and no callback
  runs, so the frequency is not updated again.
\<close>

theorem min_freq_store_boost_device:
  "is_boost_device df \<Longrightarrow>
     min_freq_store h sscanf_lu gov jiffies df buf count = (int count, df, [])"
  by (simp add: min_freq_store_def)

theorem min_freq_store_boost_device_witness:
  "is_boost_device ex_boost_dev \<and>
   min_freq_store linux_hdr ex_sscanf_lu ex_gov 40 ex_boost_dev ''200'' 3 = (3, ex_boost_dev, [])"
  using min_freq_store_boost_device [of ex_boost_dev linux_hdr ex_sscanf_lu ex_gov 40 "''200''" 3]
  by (simp add: ex_boost_dev_def)

text \<open>
  The same write to the device when it is not a boost device stores the new floor and
  runs \<open>update_devfreq\<close>.
\<close>

lemma min_freq_store_plain_device:
  "fst (min_freq_store linux_hdr ex_sscanf_lu ex_gov 40 ex_dev ''200'' 3) = 3 \<and>
   min_freq (fst (snd (min_freq_store linux_hdr ex_sscanf_lu ex_gov 40 ex_dev ''200'' 3))) = 200 \<and>
   target_calls (snd (snd (min_freq_store linux_hdr ex_sscanf_lu ex_gov 40 ex_dev ''200'' 3))) =
     [(300, 1)]"
  by code_simp

text \<open>
  C6 (as stated, refuted): the device runs the registered governor \<open>userspace\<close>; a
  write of \<open>userspace\<close> names the attached governor, but the name is not on the white
  list of lines 975-980 and the write returns \<open>-EINVAL\<close> (-22), not success.
\<close>

theorem governor_store_same_governor_counterexample:
  "governor ex_userspace_dev = Some 3 \<and>
   ex_sscanf_s (DEVFREQ_NAME_LEN linux_hdr) ''userspace'' = Some ''userspace'' \<and>
   find_devfreq_governor linux_hdr ex_gov ex_governor_list ''userspace'' = Inr 3 \<and>
   fst (governor_store linux_hdr ex_sscanf_s ex_gov ex_governor_list ex_userspace_dev
          ''userspace'' 9) = - 22"
  by code_simp

text \<open>A name off the white list is rejected before anything else happens.\<close>

lemma governor_store_off_white_list:
  assumes "sscanf_s (DEVFREQ_NAME_LEN h) buf = Some str_governor"
      and "\<not> governor_white_list h str_governor"
  shows "governor_store h sscanf_s gov devfreq_governor_list df buf count = (- EINVAL h, df, [])"
  using assms by (simp add: governor_store_def)

text \<open>
  C6 (amended): a governor write whose name is on the white list and resolves to the
  governor already attached returns the byte count, leaves the device unchanged and
  delivers no event: neither \<open>STOP\<close> nor \<open>START\<close> is invoked.
\<close>

theorem governor_store_same_governor:
  assumes "sscanf_s (DEVFREQ_NAME_LEN h) buf = Some str_governor"
      and "governor_white_list h str_governor"
      and "find_devfreq_governor h gov devfreq_governor_list str_governor = Inr g"
      and "governor df = Some g"
  shows "governor_store h sscanf_s gov devfreq_governor_list df buf count = (int count, df, [])"
  using assms by (simp add: governor_store_def ret_or_count_def)

theorem governor_store_same_governor_witness:
  "ex_sscanf_s (DEVFREQ_NAME_LEN linux_hdr) ''performance\<newline>'' = Some ''performance'' \<and>
   governor_white_list linux_hdr ''performance'' \<and>
   find_devfreq_governor linux_hdr ex_gov ex_governor_list ''performance'' = Inr 1 \<and>
   governor ex_dev = Some 1 \<and>
   governor_store linux_hdr ex_sscanf_s ex_gov ex_governor_list ex_dev ''performance\<newline>'' 12 =
     (12, ex_dev, [])"
proof -
  have a: "ex_sscanf_s (DEVFREQ_NAME_LEN linux_hdr) ''performance\<newline>'' = Some ''performance''"
    by code_simp
  have b: "governor_white_list linux_hdr ''performance''" by code_simp
  have c: "find_devfreq_governor linux_hdr ex_gov ex_governor_list ''performance'' = Inr 1"
    by code_simp
  have d: "governor ex_dev = Some 1" by (simp add: ex_dev_def)
  show ?thesis
    using governor_store_same_governor [where sscanf_s = ex_sscanf_s and h = linux_hdr and count = 12, OF a b c d]
          a b c d
    by simp
qed

text \<open>
  C5 (as stated, refuted): the device runs governor 4, whose \<open>STOP\<close> event fails with
  -5; a write of \<open>powersave\<close> (governor 2, neither governor immutable) returns -5, the
  device keeps governor 4, and the only governor event delivered is that \<open>STOP\<close>:
  governor 2 is not attached and its \<open>START\<close> is not invoked.
\<close>

theorem governor_store_stop_failure_counterexample:
  "governor ex_stopfail_dev = Some 4 \<and>
   ex_sscanf_s (DEVFREQ_NAME_LEN linux_hdr) ''powersave'' = Some ''powersave'' \<and>
   find_devfreq_governor linux_hdr ex_gov ex_governor_list ''powersave'' = Inr 2 \<and>
   \<not> immutable (ex_gov 4) \<and> \<not> immutable (ex_gov 2) \<and>
   fst (event_handler (ex_gov 4) ex_stopfail_dev DEVFREQ_GOV_STOP) = - 5 \<and>
   fst (governor_store linux_hdr ex_sscanf_s ex_gov ex_governor_list ex_stopfail_dev
          ''powersave'' 9) = - 5 \<and>
   governor (fst (snd (governor_store linux_hdr ex_sscanf_s ex_gov ex_governor_list
          ex_stopfail_dev ''powersave'' 9))) = Some 4 \<and>
   gov_events (snd (snd (governor_store linux_hdr ex_sscanf_s ex_gov ex_governor_list
          ex_stopfail_dev ''powersave'' 9))) = [(4, DEVFREQ_GOV_STOP)]"
  by code_simp


text \<open>
  C5 (amended): in a governor switch where the current and the incoming governor differ
  and neither is immutable, a failure of the current governor's \<open>STOP\<close> event is logged
  and aborts the switch (line 1003): the write returns the \<open>STOP\<close> error, the device
  is as the \<open>STOP\<close> handler left it, and nothing follows the \<open>STOP\<close> event and the
  warning, so the incoming governor is not attached and its \<open>START\<close> is not invoked.
\<close>

theorem governor_store_stop_failure:
  assumes "sscanf_s (DEVFREQ_NAME_LEN h) buf = Some str_governor"
      and "governor_white_list h str_governor"
      and "find_devfreq_governor h gov devfreq_governor_list str_governor = Inr g'"
      and "governor df = Some g" and "g \<noteq> g'"
      and "\<not> immutable (gov g)" and "\<not> immutable (gov g')"
      and "event_handler (gov g) df DEVFREQ_GOV_STOP = (ret, df1)" and "ret \<noteq> 0"
  shows "governor_store h sscanf_s gov devfreq_governor_list df buf count =
           (ret, df1, [GovEvent g DEVFREQ_GOV_STOP, DevWarn])"
  using assms by (simp add: governor_store_def ret_or_count_def)

theorem governor_store_stop_failure_witness:
  "ex_sscanf_s (DEVFREQ_NAME_LEN linux_hdr) ''powersave'' = Some ''powersave'' \<and>
   governor_white_list linux_hdr ''powersave'' \<and>
   find_devfreq_governor linux_hdr ex_gov ex_governor_list ''powersave'' = Inr 2 \<and>
   governor ex_stopfail_dev = Some 4 \<and> (4 :: gov_ptr) \<noteq> 2 \<and>
   \<not> immutable (ex_gov 4) \<and> \<not> immutable (ex_gov 2) \<and>
   event_handler (ex_gov 4) ex_stopfail_dev DEVFREQ_GOV_STOP = (- 5, ex_stopfail_dev) \<and>
   (- 5 :: int) \<noteq> 0 \<and>
   governor_store linux_hdr ex_sscanf_s ex_gov ex_governor_list ex_stopfail_dev ''powersave'' 9 =
     (- 5, ex_stopfail_dev, [GovEvent 4 DEVFREQ_GOV_STOP, DevWarn])"
proof -
  have a: "ex_sscanf_s (DEVFREQ_NAME_LEN linux_hdr) ''powersave'' = Some ''powersave''"
    by code_simp
  have b: "governor_white_list linux_hdr ''powersave''" by code_simp
  have c: "find_devfreq_governor linux_hdr ex_gov ex_governor_list ''powersave'' = Inr 2"
    by code_simp
  have d: "governor ex_stopfail_dev = Some 4" by (simp add: ex_stopfail_dev_def ex_dev_def)
  have e: "(4 :: gov_ptr) \<noteq> 2" by simp
  have f: "\<not> immutable (ex_gov 4)" "\<not> immutable (ex_gov 2)"
    by (simp_all add: ex_gov_def fixed_gov_def)
  have g: "event_handler (ex_gov 4) ex_stopfail_dev DEVFREQ_GOV_STOP = (- 5, ex_stopfail_dev)"
    by (simp add: ex_gov_def fixed_gov_def)
  have k: "(- 5 :: int) \<noteq> 0" by simp
  show ?thesis
    using governor_store_stop_failure [where sscanf_s = ex_sscanf_s and h = linux_hdr
            and count = 9, OF a b c d e f g k]
          a b c d e f g k
    by simp
qed

end
